theory Spec2Isabelle
  imports Main "HOL-Library.Multiset"
begin

section \<open>The COCO to RecordIO converter (create\_recordio\_coco.py)\<close>

text \<open>
  The script is a straight-line batch job: it parses an annotation file, builds four
  dictionaries, opens an indexed RecordIO container and then writes one record per image.
  The embedding below follows the script statement by statement. Every place where the
  Python raises is a branch that returns an \<open>error\<close>.

  Modelling decisions, all recorded here:
  \<^item> JSON objects of the three lists are records with the fields the script reads, so an
    entry with a missing field is excluded by the type. Numbers are \<open>int\<close>: the script
    never computes on a JSON number, it only copies them.
  \<^item> The top-level JSON object is a record of three optional lists: \<open>None\<close> is an
    absent key.
  \<^item> The file system that is read is a pair of lookup functions (the annotation file by
    path, the image files by path); a path that cannot be opened is \<open>None\<close> or
    \<open>Missing\<close>.
  \<^item> \<open>mx.recordio\<close> is a library outside the script. The container keeps each record
    as the header and the payload that line 69 hands to \<open>pack\<close>; \<open>mx_stored\<close> gives
    the fields the library serialises from them (it overwrites the flag with the number of
    label entries and stores the label vector as float32 values after the header). The
    indexed writer is a record with the list of these records and the list of index lines
    (key, position). The position is the number of records written before, in place of the
    byte offset that \<open>tell()\<close> returns.
  \<^item> \<open>random.shuffle\<close> is the Fisher-Yates loop of the Python library; the generator
    is a function \<open>rnd\<close> that gives the raw draw for each loop index, which a fixed seed
    determines.
  \<^item> The \<open>print\<close> calls are left out.
\<close>

subsection \<open>Data\<close>

type_synonym bytes = string

datatype key = StrKey string | IntKey int

datatype error =
    IndexError
  | FileNotFoundError string
  | JSONDecodeError
  | KeyError key

record image =
  img_id :: int
  file_name :: string
  width :: int
  height :: int

record annotation =
  ann_id :: int
  image_id :: int
  category_id :: int
  bbox :: "int list"

record category =
  cat_id :: int
  cat_name :: string

record dataset =
  ds_annotations :: "annotation list option"
  ds_images :: "image list option"
  ds_categories :: "category list option"

text \<open>The four dictionaries of lines 22-23.\<close>

record index =
  anns :: "int \<rightharpoonup> annotation"
  imgs :: "int \<rightharpoonup> image"
  cats :: "int \<rightharpoonup> int"
  imgToAnns :: "int \<rightharpoonup> annotation list"

record IRHeader =
  flag :: int
  label :: "int list"
  hid :: int
  id2 :: int

type_synonym packed = "IRHeader \<times> bytes"

record recordio =
  idx_path :: string
  rec_path :: string
  idx :: "(nat \<times> nat) list"
  rec_data :: "packed list"

datatype json_result = Missing | Malformed | Parsed dataset

record world =
  json_file :: "string \<Rightarrow> json_result"
  image_file :: "string \<rightharpoonup> bytes"
  writable :: "string \<Rightarrow> bool"

text \<open>
  What a run leaves behind: the exception that ended it (\<open>None\<close> for a normal exit) and
  the container (\<open>None\<close> when the run ended without an open writer, so that neither
  output file has been created or touched).
\<close>

type_synonym outcome = "error option \<times> recordio option"

subsection \<open>Library functions\<close>

text \<open>\<open>os.path.join\<close> of two components (posixpath).\<close>

definition path_join :: "string \<Rightarrow> string \<Rightarrow> string" where
  "path_join a b =
     (if b \<noteq> [] \<and> hd b = CHR ''/'' then b
      else if a = [] \<or> last a = CHR ''/'' then a @ b
      else a @ ''/'' @ b)"

text \<open>\<open>json.load(open(in_path, 'r'))\<close>.\<close>

definition json_load :: "world \<Rightarrow> string \<Rightarrow> error + dataset" where
  "json_load w path =
     (case json_file w path of
        Missing \<Rightarrow> Inl (FileNotFoundError path)
      | Malformed \<Rightarrow> Inl JSONDecodeError
      | Parsed d \<Rightarrow> Inr d)"

text \<open>
  \<open>random.shuffle(x)\<close>: for \<open>i\<close> from \<open>len(x) - 1\<close> down to 1, draw \<open>j\<close> below
  \<open>i + 1\<close> and swap \<open>x[i]\<close> with \<open>x[j]\<close>.
\<close>

fun shuffle_loop :: "(nat \<Rightarrow> nat) \<Rightarrow> nat \<Rightarrow> 'a list \<Rightarrow> 'a list" where
  "shuffle_loop rnd 0 xs = xs"
| "shuffle_loop rnd (Suc i) xs =
     (let j = rnd (Suc i) mod (Suc i + 1)
      in shuffle_loop rnd i (xs[Suc i := xs ! j, j := xs ! Suc i]))"

definition random_shuffle :: "(nat \<Rightarrow> nat) \<Rightarrow> 'a list \<Rightarrow> 'a list" where
  "random_shuffle rnd xs = shuffle_loop rnd (length xs - 1) xs"

text \<open>
  \<open>mx.recordio.MXIndexedRecordIO(idx_path, uri, 'w')\<close>: the record file and then the index
  file are created empty. The open is taken as one step: it creates both files or it fails
  and leaves no container.
\<close>

definition MXIndexedRecordIO :: "world \<Rightarrow> string \<Rightarrow> string \<Rightarrow> error + recordio" where
  "MXIndexedRecordIO w ipath rpath =
     (if \<not> writable w rpath then Inl (FileNotFoundError rpath)
      else if \<not> writable w ipath then Inl (FileNotFoundError ipath)
      else Inr \<lparr>idx_path = ipath, rec_path = rpath, idx = [], rec_data = []\<rparr>)"

text \<open>
  \<open>mx.recordio.pack(header, s)\<close>. The record is kept as the two arguments of the call.
  What the library writes for them is \<open>mx_stored\<close>: for a header whose label is a list,
  \<open>pack\<close> converts the list to a float32 array, replaces the flag by the size of the array
  and the label by 0, and puts the array between the fixed header (\<open>struct.pack('IfQQ', ...)\<close>)
  and \<open>s\<close>. The conversion of a number to float32 is the parameter \<open>f\<close>; the stored
  fields are kept apart, their byte layout is not modelled.
\<close>

definition pack :: "IRHeader \<Rightarrow> bytes \<Rightarrow> packed" where
  "pack header s = (header, s)"

record 'f stored =
  s_flag :: int
  s_label :: 'f
  s_id :: int
  s_id2 :: int
  s_array :: "'f list"
  s_payload :: bytes

definition mx_stored :: "(int \<Rightarrow> 'f) \<Rightarrow> packed \<Rightarrow> 'f stored" where
  "mx_stored f p =
     \<lparr>s_flag = int (length (label (fst p))), s_label = f 0, s_id = hid (fst p),
      s_id2 = id2 (fst p), s_array = map f (label (fst p)), s_payload = snd p\<rparr>"

definition write_idx :: "recordio \<Rightarrow> nat \<Rightarrow> packed \<Rightarrow> recordio" where
  "write_idx r k buf =
     r\<lparr>idx := idx r @ [(k, length (rec_data r))], rec_data := rec_data r @ [buf]\<rparr>"

subsection \<open>Lines 22-36: the dictionaries\<close>

definition empty_index :: index where
  "empty_index = \<lparr>anns = Map.empty, imgs = Map.empty, cats = Map.empty, imgToAnns = Map.empty\<rparr>"

text \<open>Reading a \<open>defaultdict(list)\<close>: a key never stored reads as the empty list.\<close>

definition dd_get :: "(int \<rightharpoonup> 'a list) \<Rightarrow> int \<Rightarrow> 'a list" where
  "dd_get m k = (case m k of None \<Rightarrow> [] | Some l \<Rightarrow> l)"

definition add_ann :: "index \<Rightarrow> annotation \<Rightarrow> index" where
  "add_ann st ann =
     st\<lparr>imgToAnns := (imgToAnns st)(image_id ann \<mapsto> dd_get (imgToAnns st) (image_id ann) @ [ann]),
        anns := (anns st)(ann_id ann \<mapsto> ann)\<rparr>"

definition add_img :: "index \<Rightarrow> image \<Rightarrow> index" where
  "add_img st img = st\<lparr>imgs := (imgs st)(img_id img \<mapsto> img)\<rparr>"

definition add_cat :: "index \<Rightarrow> nat \<times> category \<Rightarrow> index" where
  "add_cat st p = st\<lparr>cats := (cats st)(cat_id (snd p) \<mapsto> int (fst p) + 1)\<rparr>"

definition load_annotations :: "dataset \<Rightarrow> index \<Rightarrow> index" where
  "load_annotations d st =
     (case ds_annotations d of None \<Rightarrow> st | Some l \<Rightarrow> foldl add_ann st l)"

definition load_images :: "dataset \<Rightarrow> index \<Rightarrow> index" where
  "load_images d st =
     (case ds_images d of None \<Rightarrow> st | Some l \<Rightarrow> foldl add_img st l)"

definition load_categories :: "dataset \<Rightarrow> index \<Rightarrow> index" where
  "load_categories d st =
     (case ds_categories d of None \<Rightarrow> st | Some l \<Rightarrow> foldl add_cat st (enumerate 0 l))"

definition createIndex :: "dataset \<Rightarrow> index" where
  "createIndex d = load_categories d (load_images d (load_annotations d empty_index))"

subsection \<open>Lines 46-70: one record per image\<close>

text \<open>Lines 55-59: the loop over the annotations of one image.\<close>

fun collect :: "(int \<rightharpoonup> int) \<Rightarrow> annotation list \<Rightarrow> int list list \<Rightarrow> int list
                 \<Rightarrow> error + (int list list \<times> int list)" where
  "collect cs [] bboxes labels = Inr (bboxes, labels)"
| "collect cs (ann # rest) bboxes labels =
     (case cs (category_id ann) of
        None \<Rightarrow> Inl (KeyError (IntKey (category_id ann)))
      | Some l \<Rightarrow> collect cs rest (bboxes @ [bbox ann]) (labels @ [l]))"

text \<open>Lines 47-66: the bytes of the image and \<open>finalData\<close>.\<close>

definition build_record :: "world \<Rightarrow> string \<Rightarrow> index \<Rightarrow> image \<Rightarrow> error + (int list \<times> bytes)" where
  "build_record w in_img_path st img =
     (case image_file w (path_join in_img_path (file_name img)) of
        None \<Rightarrow> Inl (FileNotFoundError (path_join in_img_path (file_name img)))
      | Some imgData \<Rightarrow>
          (case collect (cats st) (dd_get (imgToAnns st) (img_id img)) [] [] of
             Inl e \<Rightarrow> Inl e
           | Inr (bboxes, labels) \<Rightarrow>
               Inr ([img_id img, width img, height img] @ labels @ concat bboxes, imgData)))"

definition header_of :: "int list \<Rightarrow> nat \<Rightarrow> IRHeader" where
  "header_of finalData i = \<lparr>flag = 0, label = finalData, hid = int i, id2 = 0\<rparr>"

text \<open>Lines 46-70: the loop, with the loop counter \<open>i\<close> and the writer passed along.\<close>

fun write_records :: "world \<Rightarrow> string \<Rightarrow> index \<Rightarrow> nat \<Rightarrow> image list \<Rightarrow> recordio \<Rightarrow> outcome" where
  "write_records w in_img_path st i [] r = (None, Some r)"
| "write_records w in_img_path st i (img # rest) r =
     (case build_record w in_img_path st img of
        Inl e \<Rightarrow> (Some e, Some r)
      | Inr (finalData, imgData) \<Rightarrow>
          write_records w in_img_path st (Suc i) rest
            (write_idx r i (pack (header_of finalData i) imgData)))"

subsection \<open>The script\<close>

definition shuffle_flag :: "string list \<Rightarrow> bool" where
  "shuffle_flag argv = (length argv > 4)"

definition main :: "(nat \<Rightarrow> nat) \<Rightarrow> world \<Rightarrow> string list \<Rightarrow> outcome" where
  "main rnd w argv =
     (if length argv < 4 then (Some IndexError, None)
      else
        (let in_path = argv ! 1; in_img_path = argv ! 2; out_path = argv ! 3;
             shuffle = shuffle_flag argv
         in (case json_load w in_path of
               Inl e \<Rightarrow> (Some e, None)
             | Inr d \<Rightarrow>
                 (let st = createIndex d
                  in (case MXIndexedRecordIO w (path_join out_path ''coco.idx'')
                                               (path_join out_path ''coco.rec'') of
                        Inl e \<Rightarrow> (Some e, None)
                      | Inr record \<Rightarrow>
                          (case ds_images d of
                             None \<Rightarrow> (Some (KeyError (StrKey ''images'')), Some record)
                           | Some images \<Rightarrow>
                               write_records w in_img_path st 0
                                 (if shuffle then random_shuffle rnd images else images)
                                 record))))))"

subsection \<open>Functions used to state the properties\<close>

text \<open>An absent top-level key read as the empty list.\<close>

definition the_list :: "'a list option \<Rightarrow> 'a list" where
  "the_list x = (case x of None \<Rightarrow> [] | Some l \<Rightarrow> l)"

text \<open>The writer after a run of successful \<open>write_idx\<close> calls with consecutive keys.\<close>

fun write_all :: "recordio \<Rightarrow> nat \<Rightarrow> (int list \<times> bytes) list \<Rightarrow> recordio" where
  "write_all r i [] = r"
| "write_all r i (x # xs) = write_all (write_idx r i (pack (header_of (fst x) i) (snd x))) (Suc i) xs"

subsection \<open>Example inputs\<close>

text \<open>A category list in which an id occurs twice.\<close>

definition dup_categories :: "category list" where
  "dup_categories = [\<lparr>cat_id = 5, cat_name = ''x''\<rparr>, \<lparr>cat_id = 5, cat_name = ''y''\<rparr>]"

definition dup_dataset :: dataset where
  "dup_dataset = \<lparr>ds_annotations = None, ds_images = None, ds_categories = Some dup_categories\<rparr>"

text \<open>A category list with two different ids.\<close>

definition two_categories :: "category list" where
  "two_categories = [\<lparr>cat_id = 5, cat_name = ''x''\<rparr>, \<lparr>cat_id = 7, cat_name = ''y''\<rparr>]"

definition two_cat_dataset :: dataset where
  "two_cat_dataset = \<lparr>ds_annotations = None, ds_images = None, ds_categories = Some two_categories\<rparr>"

text \<open>
  The single-image scenario: image 1 (\<open>a.jpg\<close>, 10 by 20) with one annotation of
  category 5 and bbox \<open>[1, 2, 3, 4]\<close>; the only category is 5.
\<close>

definition scenario_image :: image where
  "scenario_image = \<lparr>img_id = 1, file_name = ''a.jpg'', width = 10, height = 20\<rparr>"

definition scenario_dataset :: dataset where
  "scenario_dataset =
     \<lparr>ds_annotations = Some [\<lparr>ann_id = 1, image_id = 1, category_id = 5, bbox = [1, 2, 3, 4]\<rparr>],
      ds_images = Some [scenario_image],
      ds_categories = Some [\<lparr>cat_id = 5, cat_name = ''x''\<rparr>]\<rparr>"

definition scenario_world :: world where
  "scenario_world =
     \<lparr>json_file = (\<lambda>p. if p = ''ann.json'' then Parsed scenario_dataset else Missing),
      image_file = (\<lambda>p. if p = ''imgs/a.jpg'' then Some ''JPEG'' else None),
      writable = (\<lambda>p. True)\<rparr>"

definition scenario_argv :: "string list" where
  "scenario_argv = [''create_recordio_coco.py'', ''ann.json'', ''imgs'', ''out'']"

definition scenario_container :: recordio where
  "scenario_container =
     \<lparr>idx_path = ''out/coco.idx'', rec_path = ''out/coco.rec'', idx = [(0, 0)],
      rec_data = [(\<lparr>flag = 0, label = [1, 10, 20, 1, 1, 2, 3, 4], hid = 0, id2 = 0\<rparr>, ''JPEG'')]\<rparr>"

text \<open>
  The annotations of an image, read off the annotation list of the input (not off the
  dictionary), and the label the category dictionary gives an annotation.
\<close>

definition group_of :: "dataset \<Rightarrow> int \<Rightarrow> annotation list" where
  "group_of d k = filter (\<lambda>a. image_id a = k) (the_list (ds_annotations d))"

definition label_of :: "dataset \<Rightarrow> annotation \<Rightarrow> int" where
  "label_of d a = the (cats (createIndex d) (category_id a))"

text \<open>The writer as line 40 leaves it, and the order in which line 46 visits the images.\<close>

definition new_recordio :: "string \<Rightarrow> recordio" where
  "new_recordio out_path =
     \<lparr>idx_path = path_join out_path ''coco.idx'', rec_path = path_join out_path ''coco.rec'',
      idx = [], rec_data = []\<rparr>"

definition image_order :: "(nat \<Rightarrow> nat) \<Rightarrow> string list \<Rightarrow> image list \<Rightarrow> image list" where
  "image_order rnd argv ims = (if shuffle_flag argv then random_shuffle rnd ims else ims)"

text \<open>
  The numeric vector of an image as the data model describes it, and the record (vector and
  image bytes) of an image whose file can be read.
\<close>

definition record_vector :: "dataset \<Rightarrow> image \<Rightarrow> int list" where
  "record_vector d img =
     [img_id img, width img, height img] @ map (label_of d) (group_of d (img_id img))
       @ concat (map bbox (group_of d (img_id img)))"

definition built :: "world \<Rightarrow> string \<Rightarrow> dataset \<Rightarrow> image \<Rightarrow> int list \<times> bytes" where
  "built w p d img = (record_vector d img, the (image_file w (path_join p (file_name img))))"

text \<open>
  An image that line 48 can read and whose annotations all have a category of the category
  list.
\<close>

definition known_category :: "dataset \<Rightarrow> annotation \<Rightarrow> bool" where
  "known_category d a = (category_id a \<in> cat_id ` set (the_list (ds_categories d)))"

definition valid_image :: "world \<Rightarrow> string \<Rightarrow> dataset \<Rightarrow> image \<Rightarrow> bool" where
  "valid_image w p d img =
     (image_file w (path_join p (file_name img)) \<noteq> None
      \<and> list_all (known_category d) (group_of d (img_id img)))"

text \<open>
  The arguments and files a run needs to get as far as the loop of line 46: three
  positional arguments, an annotation file that parses to \<open>d\<close>, an output directory in
  which both files can be created, and the key \<open>images\<close> with the list \<open>ims\<close>.
\<close>

definition reaches_loop :: "world \<Rightarrow> string list \<Rightarrow> dataset \<Rightarrow> image list \<Rightarrow> bool" where
  "reaches_loop w argv d ims =
     (4 \<le> length argv \<and> json_file w (argv ! 1) = Parsed d
      \<and> writable w (path_join (argv ! 3) ''coco.idx'')
      \<and> writable w (path_join (argv ! 3) ''coco.rec'')
      \<and> ds_images d = Some ims)"

text \<open>The content of a written record: the label field of its header and its payload.\<close>

definition contents :: "recordio \<Rightarrow> (int list \<times> bytes) list" where
  "contents r = map (\<lambda>e. (label (fst e), snd e)) (rec_data r)"

text \<open>
  Two images; the annotation of the second one has category 9, which is not in the category
  list. In \<open>missing_world\<close> the file of the second image does not exist; in
  \<open>both_world\<close> both files exist.
\<close>

definition image_a :: image where
  "image_a = \<lparr>img_id = 1, file_name = ''a.jpg'', width = 10, height = 20\<rparr>"

definition image_b :: image where
  "image_b = \<lparr>img_id = 2, file_name = ''b.jpg'', width = 30, height = 40\<rparr>"

definition ann_a :: annotation where
  "ann_a = \<lparr>ann_id = 1, image_id = 1, category_id = 5, bbox = [1, 2, 3, 4]\<rparr>"

definition ann_b :: annotation where
  "ann_b = \<lparr>ann_id = 2, image_id = 2, category_id = 9, bbox = [5, 6, 7, 8]\<rparr>"

definition two_image_dataset :: dataset where
  "two_image_dataset =
     \<lparr>ds_annotations = Some [ann_a, ann_b], ds_images = Some [image_a, image_b],
      ds_categories = Some [\<lparr>cat_id = 5, cat_name = ''x''\<rparr>]\<rparr>"

definition missing_world :: world where
  "missing_world =
     \<lparr>json_file = (\<lambda>p. if p = ''ann.json'' then Parsed two_image_dataset else Missing),
      image_file = (\<lambda>p. if p = ''imgs/a.jpg'' then Some ''JPEG-A'' else None),
      writable = (\<lambda>p. True)\<rparr>"

definition both_world :: world where
  "both_world =
     \<lparr>json_file = (\<lambda>p. if p = ''ann.json'' then Parsed two_image_dataset else Missing),
      image_file = (\<lambda>p. if p = ''imgs/a.jpg'' then Some ''JPEG-A''
                         else if p = ''imgs/b.jpg'' then Some ''JPEG-B'' else None),
      writable = (\<lambda>p. True)\<rparr>"

definition one_record_container :: recordio where
  "one_record_container =
     \<lparr>idx_path = ''out/coco.idx'', rec_path = ''out/coco.rec'', idx = [(0, 0)],
      rec_data = [(\<lparr>flag = 0, label = [1, 10, 20, 1, 1, 2, 3, 4], hid = 0, id2 = 0\<rparr>, ''JPEG-A'')]\<rparr>"

text \<open>An annotation file that is not JSON.\<close>

definition malformed_world :: world where
  "malformed_world =
     \<lparr>json_file = (\<lambda>p. Malformed), image_file = (\<lambda>p. None), writable = (\<lambda>p. True)\<rparr>"

text \<open>
  The annotation file \<open>{"annotations": [], "categories": []}\<close>: the key \<open>images\<close> is
  absent.
\<close>

definition no_images_dataset :: dataset where
  "no_images_dataset = \<lparr>ds_annotations = Some [], ds_images = None, ds_categories = Some []\<rparr>"

definition no_images_world :: world where
  "no_images_world =
     \<lparr>json_file = (\<lambda>p. if p = ''ann.json'' then Parsed no_images_dataset else Missing),
      image_file = (\<lambda>p. None), writable = (\<lambda>p. True)\<rparr>"

text \<open>
  Two entries of the images list with the same id 1 and different files and sizes, one
  annotation for id 1, and an annotation for id 3, which no image has.
\<close>

definition image_c :: image where
  "image_c = \<lparr>img_id = 1, file_name = ''c.jpg'', width = 30, height = 40\<rparr>"

definition ann_orphan :: annotation where
  "ann_orphan = \<lparr>ann_id = 7, image_id = 3, category_id = 9, bbox = [9, 9, 9, 9]\<rparr>"

definition same_id_dataset :: dataset where
  "same_id_dataset =
     \<lparr>ds_annotations = Some ([ann_a] @ ann_orphan # []), ds_images = Some [image_a, image_c],
      ds_categories = Some [\<lparr>cat_id = 5, cat_name = ''x''\<rparr>]\<rparr>"

definition same_id_world :: world where
  "same_id_world =
     \<lparr>json_file = (\<lambda>p. if p = ''ann.json'' then Parsed same_id_dataset else Missing),
      image_file = (\<lambda>p. if p = ''imgs/a.jpg'' then Some ''JPEG-A''
                         else if p = ''imgs/c.jpg'' then Some ''JPEG-C'' else None),
      writable = (\<lambda>p. True)\<rparr>"

definition shuffle_argv :: "string list" where
  "shuffle_argv = scenario_argv @ [''yes'']"

definition two_record_container :: recordio where
  "two_record_container =
     \<lparr>idx_path = ''out/coco.idx'', rec_path = ''out/coco.rec'', idx = [(0, 0), (1, 1)],
      rec_data = [(\<lparr>flag = 0, label = [1, 10, 20, 1, 1, 2, 3, 4], hid = 0, id2 = 0\<rparr>, ''JPEG-A''),
                  (\<lparr>flag = 0, label = [1, 30, 40, 1, 1, 2, 3, 4], hid = 1, id2 = 0\<rparr>, ''JPEG-C'')]\<rparr>"

definition swapped_container :: recordio where
  "swapped_container =
     \<lparr>idx_path = ''out/coco.idx'', rec_path = ''out/coco.rec'', idx = [(0, 0), (1, 1)],
      rec_data = [(\<lparr>flag = 0, label = [1, 30, 40, 1, 1, 2, 3, 4], hid = 0, id2 = 0\<rparr>, ''JPEG-C''),
                  (\<lparr>flag = 0, label = [1, 10, 20, 1, 1, 2, 3, 4], hid = 1, id2 = 0\<rparr>, ''JPEG-A'')]\<rparr>"

section \<open>Properties\<close>

subsection \<open>The dictionaries\<close>

lemma foldl_add_ann_groups:
  "dd_get (imgToAnns (foldl add_ann st l)) k
     = dd_get (imgToAnns st) k @ filter (\<lambda>a. image_id a = k) l"
  by (induction l arbitrary: st) (auto simp: add_ann_def dd_get_def)

lemma foldl_add_ann_cats: "cats (foldl add_ann st l) = cats st"
  by (induction l arbitrary: st) (auto simp: add_ann_def)

lemma foldl_add_img_cats: "cats (foldl add_img st l) = cats st"
  by (induction l arbitrary: st) (auto simp: add_img_def)

lemma foldl_add_img_groups: "imgToAnns (foldl add_img st l) = imgToAnns st"
  by (induction l arbitrary: st) (auto simp: add_img_def)

lemma foldl_add_cat_groups: "imgToAnns (foldl add_cat st l) = imgToAnns st"
  by (induction l arbitrary: st) (auto simp: add_cat_def)

lemma dd_get_empty: "dd_get Map.empty k = []"
  by (simp add: dd_get_def)

lemma groups_createIndex:
  "dd_get (imgToAnns (createIndex d)) k
     = filter (\<lambda>a. image_id a = k) (the_list (ds_annotations d))"
  by (simp add: createIndex_def load_categories_def load_images_def load_annotations_def
      the_list_def foldl_add_cat_groups foldl_add_img_groups foldl_add_ann_groups
      dd_get_empty empty_index_def split: option.splits)

lemma cats_add_cat: "cats (add_cat st p) = (cats st)(cat_id (snd p) \<mapsto> int (fst p) + 1)"
  by (simp add: add_cat_def)

lemma foldl_add_cat_cong:
  "cats st = cats st' \<Longrightarrow> cats (foldl add_cat st l) = cats (foldl add_cat st' l)"
  by (induction l arbitrary: st st') (simp_all add: cats_add_cat)

lemma foldl_add_cat_other:
  "c \<notin> cat_id ` set l \<Longrightarrow> cats (foldl add_cat st (enumerate n l)) c = cats st c"
  by (induction l arbitrary: st n) (auto simp: cats_add_cat)

lemma foldl_add_cat_last:
  "i < length l \<Longrightarrow> cat_id (l ! i) \<notin> cat_id ` set (drop (Suc i) l)
     \<Longrightarrow> cats (foldl add_cat st (enumerate n l)) (cat_id (l ! i)) = Some (int (n + i) + 1)"
proof (induction l arbitrary: st n i)
  case Nil
  then show ?case by simp
next
  case (Cons x xs)
  show ?case
  proof (cases i)
    case 0
    with Cons.prems have "cats (foldl add_cat (add_cat st (n, x)) (enumerate (Suc n) xs)) (cat_id x)
        = cats (add_cat st (n, x)) (cat_id x)"
      by (intro foldl_add_cat_other) simp
    with 0 show ?thesis
      by (simp add: cats_add_cat)
  next
    case (Suc k)
    with Cons.prems Cons.IH [of k "add_cat st (n, x)" "Suc n"] show ?thesis
      by simp
  qed
qed

lemma foldl_add_cat_dom:
  "dom (cats (foldl add_cat st (enumerate n l))) = dom (cats st) \<union> cat_id ` set l"
  by (induction l arbitrary: st n) (auto simp: cats_add_cat)

lemma cats_createIndex:
  "cats (createIndex d) = cats (foldl add_cat empty_index (enumerate 0 (the_list (ds_categories d))))"
proof -
  have "cats (load_images d (load_annotations d empty_index)) = cats empty_index"
    by (simp add: load_images_def load_annotations_def foldl_add_img_cats foldl_add_ann_cats
        split: option.splits)
  then show ?thesis
    by (auto simp: createIndex_def load_categories_def the_list_def
        intro: foldl_add_cat_cong split: option.splits)
qed

lemma collect_ok:
  "\<forall>a\<in>set l. cs (category_id a) \<noteq> None \<Longrightarrow>
     collect cs l bb ll = Inr (bb @ map bbox l, ll @ map (\<lambda>a. the (cs (category_id a))) l)"
  by (induction l arbitrary: bb ll) auto

lemma collect_fail:
  "\<forall>a\<in>set pre. cs (category_id a) \<noteq> None \<Longrightarrow> cs (category_id a) = None \<Longrightarrow>
     collect cs (pre @ a # post) bb ll = Inl (KeyError (IntKey (category_id a)))"
  by (induction pre arbitrary: bb ll) auto

lemma collect_Inr:
  "collect cs l bb ll = Inr res \<Longrightarrow> \<forall>a\<in>set l. cs (category_id a) \<noteq> None"
  by (induction l arbitrary: bb ll) (auto split: option.splits)

lemma write_records_ok:
  "map (build_record w p st) pre = map Inr xs \<Longrightarrow>
     write_records w p st i (pre @ rest) r
       = write_records w p st (i + length pre) rest (write_all r i xs)"
proof (induction pre arbitrary: xs i r)
  case Nil
  then show ?case by simp
next
  case (Cons img pre)
  then obtain x xs' where xs: "xs = x # xs'" "build_record w p st img = Inr x"
    "map (build_record w p st) pre = map Inr xs'"
    by (cases xs) auto
  with Cons.IH [of xs' "Suc i"] show ?case
    by (cases x) simp
qed

lemma idx_write_all:
  "idx (write_all r i xs) = idx r @ map (\<lambda>k. (i + k, length (rec_data r) + k)) [0..<length xs]"
proof (induction xs arbitrary: r i)
  case Nil
  then show ?case by simp
next
  case (Cons x xs)
  show ?case
    by (simp add: Cons.IH write_idx_def upt_rec [of 0 "Suc (length xs)"]
        map_Suc_upt [symmetric] del: upt_Suc)
qed

subsection \<open>The category remapping\<close>

lemma cats_dup_dataset: "cats (createIndex dup_dataset) = [5 \<mapsto> 2]"
  by (simp add: createIndex_def load_categories_def load_images_def load_annotations_def
      dup_dataset_def dup_categories_def empty_index_def cats_add_cat)

text \<open>
  C3, as stated: the remapping is a bijection from the distinct category ids, in order of
  first appearance, to \<open>1..K\<close>. With the category list \<open>[5, 5]\<close> the loop of
  lines 35-36 stores \<open>cats[5] = 1\<close> and then overwrites it with \<open>cats[5] = 2\<close>: the
  only label is 2, which is neither \<open>{1..2}\<close> (K the length of the list) nor \<open>{1..1}\<close>
  (K the number of distinct ids), and the id first seen at position 0 does not get label 1.
\<close>

theorem remap_duplicate_ids_counterexample:
  "\<not> bij_betw (\<lambda>c. the (cats (createIndex dup_dataset) c))
        (cat_id ` set dup_categories) {1..int (length dup_categories)}
   \<and> \<not> bij_betw (\<lambda>c. the (cats (createIndex dup_dataset) c))
        (cat_id ` set dup_categories) {1..int (card (cat_id ` set dup_categories))}
   \<and> cats (createIndex dup_dataset) (cat_id (dup_categories ! 0)) \<noteq> Some 1"
proof -
  have ids: "cat_id ` set dup_categories = {5}"
    by (simp add: dup_categories_def)
  have img: "(\<lambda>c. the (cats (createIndex dup_dataset) c)) ` {5} = {2}"
    by (simp add: cats_dup_dataset)
  have "{2} \<noteq> {1..(2::int)}"
  proof
    assume "{2} = {1..(2::int)}"
    moreover have "(1::int) \<in> {1..2}" by simp
    ultimately have "(1::int) \<in> {2}" by (rule ssubst)
    then show False by simp
  qed
  moreover have "{2} \<noteq> {1..(1::int)}"
  proof
    assume "{2} = {1..(1::int)}"
    moreover have "(2::int) \<in> {2}" by simp
    ultimately have "(2::int) \<in> {1..1}" by (rule subst)
    then show False by simp
  qed
  moreover note img
  ultimately show ?thesis
    unfolding ids bij_betw_def
    by (simp add: cats_dup_dataset dup_categories_def)
qed

text \<open>
  C3, amended: when the ids of the category list are pairwise distinct, the remapping is a
  bijection from the ids onto \<open>1..K\<close>, K the length of the list; the id at position
  \<open>i\<close> (0-based) gets the label \<open>i + 1\<close>, and no other id has a label.
\<close>

theorem remap_distinct_ids:
  assumes "distinct (map cat_id (the_list (ds_categories d)))"
  shows "bij_betw (\<lambda>c. the (cats (createIndex d) c))
           (cat_id ` set (the_list (ds_categories d)))
           {1..int (length (the_list (ds_categories d)))}
         \<and> (\<forall>i<length (the_list (ds_categories d)).
               cats (createIndex d) (cat_id (the_list (ds_categories d) ! i)) = Some (int i + 1))
         \<and> dom (cats (createIndex d)) = cat_id ` set (the_list (ds_categories d))"
proof -
  define cs where "cs = the_list (ds_categories d)"
  define f where "f = (\<lambda>c. the (cats (createIndex d) c))"
  have pos: "cats (createIndex d) (cat_id (cs ! i)) = Some (int i + 1)" if "i < length cs" for i
  proof -
    have "cat_id (cs ! i) \<notin> cat_id ` set (drop (Suc i) cs)"
    proof
      assume "cat_id (cs ! i) \<in> cat_id ` set (drop (Suc i) cs)"
      then obtain k where k: "k < length (drop (Suc i) cs)"
        "cat_id (drop (Suc i) cs ! k) = cat_id (cs ! i)"
        by (auto simp: in_set_conv_nth)
      then have eq: "map cat_id cs ! (Suc i + k) = map cat_id cs ! i"
        and lt: "Suc i + k < length (map cat_id cs)"
        by auto
      from assms have "distinct (map cat_id cs)"
        by (simp add: cs_def)
      from nth_eq_iff_index_eq [OF this lt, of i] eq that show False
        by simp
    qed
    with that show ?thesis
      using foldl_add_cat_last [of i cs empty_index 0]
      by (simp add: cats_createIndex cs_def)
  qed
  have f: "f (cat_id (cs ! i)) = int i + 1" if "i < length cs" for i
    using pos [OF that] by (simp add: f_def)
  have "inj_on f (cat_id ` set cs)"
  proof (rule inj_onI)
    fix a b
    assume "a \<in> cat_id ` set cs" "b \<in> cat_id ` set cs" "f a = f b"
    then obtain i j where "i < length cs" "a = cat_id (cs ! i)" "j < length cs" "b = cat_id (cs ! j)"
      by (auto simp: in_set_conv_nth)
    with \<open>f a = f b\<close> f show "a = b" by auto
  qed
  moreover have "f ` cat_id ` set cs = {1..int (length cs)}"
  proof
    show "f ` cat_id ` set cs \<subseteq> {1..int (length cs)}"
      using f by (auto simp: in_set_conv_nth)
  next
    show "{1..int (length cs)} \<subseteq> f ` cat_id ` set cs"
    proof
      fix k
      assume "k \<in> {1..int (length cs)}"
      then have "nat (k - 1) < length cs" "k = int (nat (k - 1)) + 1"
        by auto
      with f [of "nat (k - 1)"] show "k \<in> f ` cat_id ` set cs"
        by (metis image_eqI nth_mem)
    qed
  qed
  moreover have "dom (cats (createIndex d)) = cat_id ` set cs"
    by (simp add: cats_createIndex cs_def foldl_add_cat_dom empty_index_def)
  ultimately show ?thesis
    using pos unfolding bij_betw_def cs_def f_def by blast
qed

theorem remap_distinct_ids_witness:
  "distinct (map cat_id (the_list (ds_categories two_cat_dataset)))
   \<and> cats (createIndex two_cat_dataset) 5 = Some 1
   \<and> cats (createIndex two_cat_dataset) 7 = Some 2
   \<and> dom (cats (createIndex two_cat_dataset)) = {5, 7}"
proof -
  have d: "distinct (map cat_id (the_list (ds_categories two_cat_dataset)))"
    by (simp add: two_cat_dataset_def two_categories_def the_list_def)
  from remap_distinct_ids [OF d]
  have pos: "\<forall>i<length (the_list (ds_categories two_cat_dataset)).
               cats (createIndex two_cat_dataset) (cat_id (the_list (ds_categories two_cat_dataset) ! i))
                 = Some (int i + 1)"
    and dm: "dom (cats (createIndex two_cat_dataset))
               = cat_id ` set (the_list (ds_categories two_cat_dataset))"
    by simp_all
  from pos have "cats (createIndex two_cat_dataset) 5 = Some 1"
    by (simp add: two_cat_dataset_def two_categories_def the_list_def numeral_2_eq_2 All_less_Suc)
  moreover from pos have "cats (createIndex two_cat_dataset) 7 = Some 2"
    by (simp add: two_cat_dataset_def two_categories_def the_list_def numeral_2_eq_2 All_less_Suc)
  moreover from dm have "dom (cats (createIndex two_cat_dataset)) = {5, 7}"
    by (simp add: two_cat_dataset_def two_categories_def the_list_def)
  ultimately show ?thesis
    using d by simp
qed

subsection \<open>Building one record\<close>

lemma build_record_Inr:
  assumes "build_record w p (createIndex d) img = Inr (fd, data)"
  shows "image_file w (path_join p (file_name img)) = Some data"
    and "\<forall>a\<in>set (group_of d (img_id img)). cats (createIndex d) (category_id a) \<noteq> None"
    and "fd = [img_id img, width img, height img] @ map (label_of d) (group_of d (img_id img))
                @ concat (map bbox (group_of d (img_id img)))"
proof -
  from assms obtain bboxes labels where
    f: "image_file w (path_join p (file_name img)) = Some data"
    and c: "collect (cats (createIndex d)) (group_of d (img_id img)) [] [] = Inr (bboxes, labels)"
    and fd: "fd = [img_id img, width img, height img] @ labels @ concat bboxes"
    by (auto simp: build_record_def groups_createIndex group_of_def
        split: option.splits sum.splits)
  from f show "image_file w (path_join p (file_name img)) = Some data" .
  from collect_Inr [OF c]
  show known: "\<forall>a\<in>set (group_of d (img_id img)). cats (createIndex d) (category_id a) \<noteq> None" .
  from collect_ok [OF known, of "[]" "[]"] c fd
  show "fd = [img_id img, width img, height img] @ map (label_of d) (group_of d (img_id img))
                @ concat (map bbox (group_of d (img_id img)))"
    by (simp add: label_of_def)
qed

lemma build_record_ok:
  assumes "image_file w (path_join p (file_name img)) = Some data"
    and "\<forall>a\<in>set (group_of d (img_id img)). cats (createIndex d) (category_id a) \<noteq> None"
  shows "build_record w p (createIndex d) img =
     Inr ([img_id img, width img, height img] @ map (label_of d) (group_of d (img_id img))
                @ concat (map bbox (group_of d (img_id img))), data)"
  using assms collect_ok [OF assms(2), of "[]" "[]"]
  by (simp add: build_record_def groups_createIndex group_of_def label_of_def)



subsection \<open>The single-image scenario\<close>

lemmas loader_defs = createIndex_def load_categories_def load_images_def load_annotations_def
  empty_index_def add_ann_def add_img_def add_cat_def dd_get_def

lemma scenario_index:
  "cats (createIndex scenario_dataset) = [5 \<mapsto> 1]"
  "dd_get (imgToAnns (createIndex scenario_dataset)) 1
     = [\<lparr>ann_id = 1, image_id = 1, category_id = 5, bbox = [1, 2, 3, 4]\<rparr>]"
  by (simp_all add: loader_defs scenario_dataset_def)

lemma scenario_build:
  "build_record scenario_world ''imgs'' (createIndex scenario_dataset) scenario_image
     = Inr ([1, 10, 20, 1, 1, 2, 3, 4], ''JPEG'')"
  by (simp add: build_record_def scenario_index scenario_world_def scenario_image_def path_join_def)

lemma scenario_run: "main rnd scenario_world scenario_argv = (None, Some scenario_container)"
  by (simp add: main_def scenario_argv_def shuffle_flag_def json_load_def scenario_world_def
      MXIndexedRecordIO_def path_join_def scenario_build [unfolded scenario_world_def]
      scenario_dataset_def [THEN arg_cong, of ds_images, simplified]
      write_idx_def pack_def header_of_def scenario_container_def)




subsection \<open>The shuffle\<close>

lemma mset_shuffle_loop: "i < length xs \<Longrightarrow> mset (shuffle_loop rnd i xs) = mset xs"
proof (induction i arbitrary: xs)
  case 0
  then show ?case by simp
next
  case (Suc i)
  define j where "j = rnd (Suc i) mod (Suc i + 1)"
  have "j < Suc i + 1"
    unfolding j_def by (rule mod_less_divisor) simp
  with Suc.prems have j: "j < length xs"
    by simp
  have "mset (xs[Suc i := xs ! j, j := xs ! Suc i]) = mset xs"
    using j Suc.prems by (rule mset_swap)
  moreover have "i < length (xs[Suc i := xs ! j, j := xs ! Suc i])"
    using Suc.prems by simp
  ultimately show ?case
    using Suc.IH [of "xs[Suc i := xs ! j, j := xs ! Suc i]"]
    by (simp add: j_def Let_def)
qed

lemma mset_random_shuffle: "mset (random_shuffle rnd xs) = mset xs"
  by (cases xs) (simp_all add: random_shuffle_def mset_shuffle_loop)

lemma shuffle_loop_cong:
  "(\<And>k. 0 < k \<Longrightarrow> k \<le> i \<Longrightarrow> rnd k = rnd' k) \<Longrightarrow> shuffle_loop rnd i xs = shuffle_loop rnd' i xs"
  by (induction i arbitrary: xs) (simp_all add: Let_def)

lemma set_image_order: "set (image_order rnd argv ims) = set ims"
  using mset_random_shuffle [of rnd ims, THEN mset_eq_setD]
  by (simp add: image_order_def)

subsection \<open>The loop over the images\<close>

lemma known_category_iff:
  "known_category d a \<longleftrightarrow> cats (createIndex d) (category_id a) \<noteq> None"
proof -
  have "dom (cats (createIndex d)) = cat_id ` set (the_list (ds_categories d))"
    by (simp add: cats_createIndex foldl_add_cat_dom empty_index_def)
  then show ?thesis
    unfolding known_category_def by (auto simp: dom_def)
qed

lemma build_record_valid:
  assumes "valid_image w p d img"
  shows "build_record w p (createIndex d) img = Inr (built w p d img)"
proof -
  from assms obtain data where f: "image_file w (path_join p (file_name img)) = Some data"
    by (auto simp: valid_image_def)
  from assms have "\<forall>a\<in>set (group_of d (img_id img)). cats (createIndex d) (category_id a) \<noteq> None"
    by (simp add: valid_image_def list_all_iff known_category_iff)
  from build_record_ok [OF f this] f show ?thesis
    by (simp add: built_def record_vector_def)
qed

lemma build_record_valid_iff:
  "valid_image w p d img \<longleftrightarrow> (\<exists>x. build_record w p (createIndex d) img = Inr x)"
proof
  assume "valid_image w p d img"
  then show "\<exists>x. build_record w p (createIndex d) img = Inr x"
    by (simp add: build_record_valid)
next
  assume "\<exists>x. build_record w p (createIndex d) img = Inr x"
  then obtain fd data where "build_record w p (createIndex d) img = Inr (fd, data)"
    by auto
  from build_record_Inr(1,2) [OF this] show "valid_image w p d img"
    by (simp add: valid_image_def list_all_iff known_category_iff)
qed

lemma rec_data_write_all:
  "rec_data (write_all r i xs)
     = rec_data r @ map (\<lambda>k. pack (header_of (fst (xs ! k)) (i + k)) (snd (xs ! k))) [0..<length xs]"
proof (induction xs arbitrary: r i)
  case Nil
  then show ?case by simp
next
  case (Cons x xs)
  show ?case
    by (simp add: Cons.IH write_idx_def upt_rec [of 0 "Suc (length xs)"]
        map_Suc_upt [symmetric] del: upt_Suc)
qed

lemma paths_write_all:
  "idx_path (write_all r i xs) = idx_path r" "rec_path (write_all r i xs) = rec_path r"
  by (induction xs arbitrary: r i) (simp_all add: write_idx_def)

lemma contents_write_all:
  "contents (write_all r i xs) = contents r @ xs"
proof (induction xs arbitrary: r i)
  case Nil
  then show ?case by simp
next
  case (Cons x xs)
  have "contents (write_idx r i (pack (header_of (fst x) i) (snd x))) = contents r @ [x]"
    by (simp add: contents_def write_idx_def pack_def header_of_def)
  then show ?case
    by (simp add: Cons.IH)
qed

lemma write_records_valid:
  assumes "list_all (valid_image w p d) pre"
  shows "write_records w p (createIndex d) i (pre @ rest) r
       = write_records w p (createIndex d) (i + length pre) rest (write_all r i (map (built w p d) pre))"
proof -
  from assms have "map (build_record w p (createIndex d)) pre = map Inr (map (built w p d) pre)"
    by (simp add: list_all_iff build_record_valid)
  then show ?thesis
    by (rule write_records_ok)
qed

lemma main_loop:
  assumes "reaches_loop w argv d ims"
  shows "main rnd w argv
       = write_records w (argv ! 2) (createIndex d) 0 (image_order rnd argv ims) (new_recordio (argv ! 3))"
  using assms
  by (simp add: reaches_loop_def main_def json_load_def MXIndexedRecordIO_def new_recordio_def
      image_order_def Let_def)

lemma main_ok:
  assumes "reaches_loop w argv d ims" and "list_all (valid_image w (argv ! 2) d) (image_order rnd argv ims)"
  shows "main rnd w argv
       = (None, Some (write_all (new_recordio (argv ! 3)) 0
                        (map (built w (argv ! 2) d) (image_order rnd argv ims))))"
  using write_records_valid [OF assms(2), of 0 "[]"] main_loop [OF assms(1), of rnd]
  by simp

lemma main_fail:
  assumes "reaches_loop w argv d ims" and "image_order rnd argv ims = pre @ img # post"
    and "list_all (valid_image w (argv ! 2) d) pre"
    and "build_record w (argv ! 2) (createIndex d) img = Inl e"
  shows "main rnd w argv
       = (Some e, Some (write_all (new_recordio (argv ! 3)) 0 (map (built w (argv ! 2) d) pre)))"
  using write_records_valid [OF assms(3), of 0 "img # post"] main_loop [OF assms(1), of rnd] assms(2,4)
  by simp

lemma written_entries:
  assumes "r = write_all (new_recordio out) 0 (map (built w p d) xs)"
  shows "length (idx r) = length xs" and "length (rec_data r) = length xs"
    and "i < length xs \<Longrightarrow> idx r ! i = (i, i)"
    and "i < length xs \<Longrightarrow> rec_data r ! i =
           pack \<lparr>flag = 0, label = record_vector d (xs ! i), hid = int i, id2 = 0\<rparr>
             (the (image_file w (path_join p (file_name (xs ! i)))))"
  unfolding assms
  by (simp_all add: idx_write_all rec_data_write_all new_recordio_def built_def header_of_def)

lemma prefix_run:
  assumes "list_all (valid_image w p d) pre"
  shows "write_records w p (createIndex d) 0 pre r0
       = (None, Some (write_all r0 0 (map (built w p d) pre)))"
  using write_records_valid [OF assms, of 0 "[]" r0] by simp

subsection \<open>The example runs\<close>

lemmas example_defs = scenario_world_def scenario_argv_def scenario_dataset_def scenario_image_def
  missing_world_def both_world_def two_image_dataset_def image_a_def image_b_def ann_a_def ann_b_def

lemmas spec_defs = reaches_loop_def valid_image_def known_category_def group_of_def the_list_def
  image_order_def shuffle_flag_def path_join_def

lemma missing_reaches:
  "reaches_loop missing_world scenario_argv two_image_dataset [image_a, image_b]"
  "reaches_loop both_world scenario_argv two_image_dataset [image_a, image_b]"
  by (simp_all add: spec_defs missing_world_def both_world_def scenario_argv_def two_image_dataset_def)

lemma two_image_order:
  "image_order rnd scenario_argv [image_a, image_b] = [image_a] @ image_b # []"
  by (simp add: image_order_def shuffle_flag_def scenario_argv_def)

lemma image_a_valid:
  "list_all (valid_image missing_world (scenario_argv ! 2) two_image_dataset) [image_a]"
  "list_all (valid_image both_world (scenario_argv ! 2) two_image_dataset) [image_a]"
  by (simp_all add: spec_defs example_defs)

lemma image_a_built:
  "built missing_world (scenario_argv ! 2) two_image_dataset image_a
     = ([1, 10, 20, 1, 1, 2, 3, 4], ''JPEG-A'')"
  "built both_world (scenario_argv ! 2) two_image_dataset image_a
     = ([1, 10, 20, 1, 1, 2, 3, 4], ''JPEG-A'')"
  by (simp_all add: built_def record_vector_def label_of_def loader_defs spec_defs example_defs)

lemma one_record_written:
  "write_all (new_recordio (scenario_argv ! 3)) 0 [([1, 10, 20, 1, 1, 2, 3, 4], ''JPEG-A'')]
     = one_record_container"
  by (simp add: write_idx_def pack_def header_of_def new_recordio_def one_record_container_def
      path_join_def scenario_argv_def)

lemma image_a_written:
  "write_records missing_world (scenario_argv ! 2) (createIndex two_image_dataset) 0 [image_a]
     (new_recordio (scenario_argv ! 3)) = (None, Some one_record_container)"
  "write_records both_world (scenario_argv ! 2) (createIndex two_image_dataset) 0 [image_a]
     (new_recordio (scenario_argv ! 3)) = (None, Some one_record_container)"
  by (simp_all only: prefix_run [OF image_a_valid(1)] prefix_run [OF image_a_valid(2)]
      list.map image_a_built one_record_written)

subsection \<open>Runs that fail in the loop\<close>

text \<open>
  C7: when the run gets to the loop, the images visited before \<open>img\<close> are all built, and
  the file of \<open>img\<close> cannot be opened, the run ends with the error of line 48 for that
  file. The container it leaves is the one a complete run over the images before \<open>img\<close>
  alone produces: one index entry and one record for each of them, with the same keys and
  the same content, and nothing for \<open>img\<close>.
\<close>

theorem missing_image_prefix:
  assumes "reaches_loop w argv d ims"
    and "image_order rnd argv ims = pre @ img # post"
    and "list_all (valid_image w (argv ! 2) d) pre"
    and "image_file w (path_join (argv ! 2) (file_name img)) = None"
  shows "\<exists>r. main rnd w argv
               = (Some (FileNotFoundError (path_join (argv ! 2) (file_name img))), Some r)
           \<and> write_records w (argv ! 2) (createIndex d) 0 pre (new_recordio (argv ! 3))
               = (None, Some r)
           \<and> length (idx r) = length pre \<and> length (rec_data r) = length pre
           \<and> (\<forall>i<length pre.
                 idx r ! i = (i, i)
                 \<and> rec_data r ! i =
                     pack \<lparr>flag = 0, label = record_vector d (pre ! i), hid = int i, id2 = 0\<rparr>
                       (the (image_file w (path_join (argv ! 2) (file_name (pre ! i))))))"
proof -
  define r where "r = write_all (new_recordio (argv ! 3)) 0 (map (built w (argv ! 2) d) pre)"
  from assms(4) have "build_record w (argv ! 2) (createIndex d) img
      = Inl (FileNotFoundError (path_join (argv ! 2) (file_name img)))"
    by (simp add: build_record_def)
  with assms(1-3) have "main rnd w argv
      = (Some (FileNotFoundError (path_join (argv ! 2) (file_name img))), Some r)"
    unfolding r_def by (rule main_fail)
  moreover have "write_records w (argv ! 2) (createIndex d) 0 pre (new_recordio (argv ! 3))
      = (None, Some r)"
    unfolding r_def using assms(3) by (rule prefix_run)
  moreover note e = written_entries [OF r_def]
  ultimately show ?thesis
    using e(1,2) e(3,4) by blast
qed

theorem missing_image_prefix_witness:
  "reaches_loop missing_world scenario_argv two_image_dataset [image_a, image_b]
   \<and> image_order (\<lambda>k. 0) scenario_argv [image_a, image_b] = [image_a] @ image_b # []
   \<and> list_all (valid_image missing_world (scenario_argv ! 2) two_image_dataset) [image_a]
   \<and> image_file missing_world (path_join (scenario_argv ! 2) (file_name image_b)) = None
   \<and> main (\<lambda>k. 0) missing_world scenario_argv
       = (Some (FileNotFoundError ''imgs/b.jpg''), Some one_record_container)"
proof -
  have f: "image_file missing_world (path_join (scenario_argv ! 2) (file_name image_b)) = None"
    by (simp add: missing_world_def path_join_def scenario_argv_def image_b_def)
  from missing_image_prefix [OF missing_reaches(1) two_image_order image_a_valid(1) f]
  obtain r where "main (\<lambda>k. 0) missing_world scenario_argv
               = (Some (FileNotFoundError (path_join (scenario_argv ! 2) (file_name image_b))), Some r)"
    and "write_records missing_world (scenario_argv ! 2) (createIndex two_image_dataset) 0 [image_a]
           (new_recordio (scenario_argv ! 3)) = (None, Some r)"
    by blast
  then have "main (\<lambda>k. 0) missing_world scenario_argv
       = (Some (FileNotFoundError (path_join (scenario_argv ! 2) (file_name image_b))),
          Some one_record_container)"
    by (simp only: image_a_written) simp
  then have "main (\<lambda>k. 0) missing_world scenario_argv
       = (Some (FileNotFoundError ''imgs/b.jpg''), Some one_record_container)"
    by (simp add: path_join_def scenario_argv_def image_b_def)
  with missing_reaches(1) two_image_order image_a_valid(1) f show ?thesis
    by simp
qed

text \<open>
  C8: when the run gets to the loop, the images visited before \<open>img\<close> are all built, the
  file of \<open>img\<close> is read, and \<open>a\<close> is the first annotation of \<open>img\<close> whose category
  is not in the category list, the run ends with the \<open>KeyError\<close> of line 59 for that
  category id. The writer is open by then (the dictionaries were built without an error:
  \<open>createIndex\<close> has no failing branch) and holds the records of the images before
  \<open>img\<close>, and nothing for \<open>img\<close>.
\<close>

theorem unknown_category_fails:
  assumes "reaches_loop w argv d ims"
    and "image_order rnd argv ims = pre @ img # post"
    and "list_all (valid_image w (argv ! 2) d) pre"
    and "image_file w (path_join (argv ! 2) (file_name img)) = Some imgData"
    and "group_of d (img_id img) = gpre @ a # gpost"
    and "list_all (known_category d) gpre"
    and "\<not> known_category d a"
  shows "\<exists>r. main rnd w argv = (Some (KeyError (IntKey (category_id a))), Some r)
           \<and> write_records w (argv ! 2) (createIndex d) 0 pre (new_recordio (argv ! 3))
               = (None, Some r)
           \<and> length (idx r) = length pre \<and> length (rec_data r) = length pre"
proof -
  define r where "r = write_all (new_recordio (argv ! 3)) 0 (map (built w (argv ! 2) d) pre)"
  from assms(6,7) have "collect (cats (createIndex d)) (gpre @ a # gpost) [] []
      = Inl (KeyError (IntKey (category_id a)))"
    by (intro collect_fail) (simp_all add: list_all_iff known_category_iff)
  with assms(4,5) have "build_record w (argv ! 2) (createIndex d) img
      = Inl (KeyError (IntKey (category_id a)))"
    by (simp add: build_record_def groups_createIndex group_of_def [symmetric])
  with assms(1-3) have "main rnd w argv = (Some (KeyError (IntKey (category_id a))), Some r)"
    unfolding r_def by (rule main_fail)
  moreover have "write_records w (argv ! 2) (createIndex d) 0 pre (new_recordio (argv ! 3))
      = (None, Some r)"
    unfolding r_def using assms(3) by (rule prefix_run)
  moreover note written_entries(1,2) [OF r_def]
  ultimately show ?thesis
    by blast
qed

theorem unknown_category_fails_witness:
  "reaches_loop both_world scenario_argv two_image_dataset [image_a, image_b]
   \<and> image_order (\<lambda>k. 0) scenario_argv [image_a, image_b] = [image_a] @ image_b # []
   \<and> list_all (valid_image both_world (scenario_argv ! 2) two_image_dataset) [image_a]
   \<and> image_file both_world (path_join (scenario_argv ! 2) (file_name image_b)) = Some ''JPEG-B''
   \<and> group_of two_image_dataset (img_id image_b) = [] @ ann_b # []
   \<and> list_all (known_category two_image_dataset) []
   \<and> \<not> known_category two_image_dataset ann_b
   \<and> main (\<lambda>k. 0) both_world scenario_argv
       = (Some (KeyError (IntKey 9)), Some one_record_container)"
proof -
  have f: "image_file both_world (path_join (scenario_argv ! 2) (file_name image_b)) = Some ''JPEG-B''"
    by (simp add: both_world_def path_join_def scenario_argv_def image_b_def)
  have g: "group_of two_image_dataset (img_id image_b) = [] @ ann_b # []"
    by (simp add: spec_defs example_defs)
  have k: "list_all (known_category two_image_dataset) []"
    by simp
  have n: "\<not> known_category two_image_dataset ann_b"
    by (simp add: spec_defs example_defs)
  from unknown_category_fails [OF missing_reaches(2) two_image_order image_a_valid(2) f g k n]
  obtain r where "main (\<lambda>k. 0) both_world scenario_argv
               = (Some (KeyError (IntKey (category_id ann_b))), Some r)"
    and "write_records both_world (scenario_argv ! 2) (createIndex two_image_dataset) 0 [image_a]
           (new_recordio (scenario_argv ! 3)) = (None, Some r)"
    by blast
  then have "main (\<lambda>k. 0) both_world scenario_argv
       = (Some (KeyError (IntKey (category_id ann_b))), Some one_record_container)"
    by (simp only: image_a_written) simp
  then have "main (\<lambda>k. 0) both_world scenario_argv
       = (Some (KeyError (IntKey 9)), Some one_record_container)"
    by (simp add: ann_b_def)
  with missing_reaches(2) two_image_order image_a_valid(2) f g k n show ?thesis
    by simp
qed

subsection \<open>Absent top-level keys\<close>

text \<open>
  The guards of lines 25, 30 and 34 make an absent key the same as an empty list while the
  dictionaries are built. Line 43 reads \<open>dataset['images']\<close> without a guard: a run whose
  annotation file has no key \<open>images\<close> never ends normally.
\<close>

lemma absent_annotations_as_empty:
  "createIndex (d\<lparr>ds_annotations := None\<rparr>) = createIndex (d\<lparr>ds_annotations := Some []\<rparr>)"
  by (simp add: createIndex_def load_categories_def load_images_def load_annotations_def)

lemma absent_categories_as_empty:
  "createIndex (d\<lparr>ds_categories := None\<rparr>) = createIndex (d\<lparr>ds_categories := Some []\<rparr>)"
  by (simp add: createIndex_def load_categories_def load_images_def load_annotations_def)

lemma absent_images_as_empty:
  "createIndex (d\<lparr>ds_images := None\<rparr>) = createIndex (d\<lparr>ds_images := Some []\<rparr>)"
  by (simp add: createIndex_def load_categories_def load_images_def load_annotations_def)

lemma absent_images_never_completes:
  assumes "json_file w (argv ! 1) = Parsed d" and "ds_images d = None"
  shows "fst (main rnd w argv) \<noteq> None"
  using assms by (simp add: main_def json_load_def Let_def split: sum.splits)

text \<open>
  C1, at the annotation file \<open>{"annotations": [], "categories": []}\<close>: the run creates the
  two output files empty and then ends with \<open>KeyError: 'images'\<close> at line 43, where the
  claim has it complete normally.
\<close>

theorem absent_images_key:
  "main (\<lambda>k. 0) no_images_world scenario_argv
     = (Some (KeyError (StrKey ''images'')),
        Some \<lparr>idx_path = ''out/coco.idx'', rec_path = ''out/coco.rec'', idx = [], rec_data = []\<rparr>)"
  by (simp add: main_def json_load_def MXIndexedRecordIO_def path_join_def Let_def
      no_images_world_def no_images_dataset_def scenario_argv_def)

subsection \<open>Runs that fail before the writer is opened\<close>

text \<open>
  C6: when the annotation file is missing or is not JSON, the run ends with an error and
  without a container: line 20 raises before line 40 opens the writer, so neither
  \<open>coco.rec\<close> nor \<open>coco.idx\<close> has been created or touched. (With fewer than three
  positional arguments the run has already ended at lines 8-10.)
\<close>

theorem parse_failure_no_output:
  assumes "json_file w (argv ! 1) = Missing \<or> json_file w (argv ! 1) = Malformed"
  shows "main rnd w argv
       = (Some (if length argv < 4 then IndexError
                else if json_file w (argv ! 1) = Missing then FileNotFoundError (argv ! 1)
                else JSONDecodeError), None)"
  using assms by (auto simp: main_def json_load_def)

theorem parse_failure_no_output_witness:
  "json_file malformed_world (scenario_argv ! 1) = Malformed
   \<and> main (\<lambda>k. 0) malformed_world scenario_argv = (Some JSONDecodeError, None)"
proof -
  have m: "json_file malformed_world (scenario_argv ! 1) = Malformed"
    by (simp add: malformed_world_def)
  then have "json_file malformed_world (scenario_argv ! 1) = Missing
      \<or> json_file malformed_world (scenario_argv ! 1) = Malformed"
    by simp
  from parse_failure_no_output [OF this, of "\<lambda>k. 0"] m show ?thesis
    by (simp add: scenario_argv_def)
qed

subsection \<open>What the loop reads\<close>

lemma build_record_cong:
  assumes "image_file w' = image_file w" and "cats st' = cats st"
    and "dd_get (imgToAnns st') (img_id img) = dd_get (imgToAnns st) (img_id img)"
  shows "build_record w' p st' img = build_record w p st img"
  unfolding build_record_def assms by (rule refl)

lemma write_records_cong:
  "\<forall>img\<in>set ims. build_record w' p st' img = build_record w p st img \<Longrightarrow>
     write_records w' p st' i ims r = write_records w p st i ims r"
  by (induction ims arbitrary: i r) (simp_all split: sum.splits)

text \<open>The run on two images with the same id.\<close>

lemmas more_example_defs = same_id_world_def same_id_dataset_def image_c_def ann_orphan_def
  shuffle_argv_def

lemma same_id_reaches:
  "reaches_loop same_id_world scenario_argv same_id_dataset [image_a, image_c]"
  "reaches_loop same_id_world shuffle_argv same_id_dataset [image_a, image_c]"
  by (simp_all add: spec_defs same_id_world_def same_id_dataset_def scenario_argv_def shuffle_argv_def)

lemma same_id_valid:
  "list_all (valid_image same_id_world (scenario_argv ! 2) same_id_dataset) [image_a, image_c]"
  by (simp add: spec_defs example_defs more_example_defs)

lemma same_id_built:
  "built same_id_world (scenario_argv ! 2) same_id_dataset image_a
     = ([1, 10, 20, 1, 1, 2, 3, 4], ''JPEG-A'')"
  "built same_id_world (scenario_argv ! 2) same_id_dataset image_c
     = ([1, 30, 40, 1, 1, 2, 3, 4], ''JPEG-C'')"
  by (simp_all add: built_def record_vector_def label_of_def loader_defs spec_defs example_defs
      more_example_defs)

lemma two_records_written:
  "write_all (new_recordio (scenario_argv ! 3)) 0
     [([1, 10, 20, 1, 1, 2, 3, 4], ''JPEG-A''), ([1, 30, 40, 1, 1, 2, 3, 4], ''JPEG-C'')]
     = two_record_container"
  "write_all (new_recordio (scenario_argv ! 3)) 0
     [([1, 30, 40, 1, 1, 2, 3, 4], ''JPEG-C''), ([1, 10, 20, 1, 1, 2, 3, 4], ''JPEG-A'')]
     = swapped_container"
  by (simp_all add: write_idx_def pack_def header_of_def new_recordio_def two_record_container_def
      swapped_container_def path_join_def scenario_argv_def)

lemma same_id_order:
  "image_order rnd scenario_argv [image_a, image_c] = [image_a, image_c]"
  "image_order (\<lambda>k. 0) shuffle_argv [image_a, image_c] = [image_c, image_a]"
  by (simp_all add: image_order_def shuffle_flag_def scenario_argv_def shuffle_argv_def
      random_shuffle_def)

lemma same_id_run:
  "main rnd same_id_world scenario_argv = (None, Some two_record_container)"
proof -
  have "list_all (valid_image same_id_world (scenario_argv ! 2) same_id_dataset)
          (image_order rnd scenario_argv [image_a, image_c])"
    by (simp only: same_id_order same_id_valid)
  from main_ok [OF same_id_reaches(1) this] show ?thesis
    by (simp only: same_id_order list.map same_id_built two_records_written)
qed

text \<open>
  C9: an annotation whose \<open>image_id\<close> is the id of no entry of the images list is put in
  its group by line 27, and the run on the annotation file without that annotation ends
  the same way and leaves the same container (all records and index entries) as the run
  with it.
\<close>

theorem orphan_annotation_ignored:
  assumes "json_file w (argv ! 1) = Parsed d"
    and "ds_annotations d = Some (xs @ a # ys)"
    and "image_id a \<notin> img_id ` set (the_list (ds_images d))"
  shows "a \<in> set (dd_get (imgToAnns (createIndex d)) (image_id a))
       \<and> main rnd (w\<lparr>json_file := (json_file w)
                         (argv ! 1 := Parsed (d\<lparr>ds_annotations := Some (xs @ ys)\<rparr>))\<rparr>) argv
           = main rnd w argv"
proof -
  from assms(2) have grouped: "a \<in> set (dd_get (imgToAnns (createIndex d)) (image_id a))"
    by (simp add: groups_createIndex the_list_def)
  define d' where "d' = d\<lparr>ds_annotations := Some (xs @ ys)\<rparr>"
  define w' where "w' = w\<lparr>json_file := (json_file w)(argv ! 1 := Parsed d')\<rparr>"
  have cats: "cats (createIndex d') = cats (createIndex d)"
    by (simp add: cats_createIndex d'_def)
  have same: "write_records w' p (createIndex d') i l r = write_records w p (createIndex d) i l r"
    if "set l = set (the_list (ds_images d))" for p i l r
  proof (rule write_records_cong, rule ballI)
    fix img
    assume "img \<in> set l"
    with that assms(3) have "image_id a \<noteq> img_id img"
      by auto
    with assms(2) have "dd_get (imgToAnns (createIndex d')) (img_id img)
        = dd_get (imgToAnns (createIndex d)) (img_id img)"
      by (simp add: groups_createIndex d'_def the_list_def)
    with cats show "build_record w' p (createIndex d') img = build_record w p (createIndex d) img"
      by (intro build_record_cong) (simp_all add: w'_def)
  qed
  have "main rnd w' argv = main rnd w argv"
  proof (cases "ds_images d")
    case None
    with assms(1) show ?thesis
      by (simp add: main_def json_load_def MXIndexedRecordIO_def Let_def w'_def d'_def)
  next
    case (Some ims)
    then have "set (if shuffle_flag argv then random_shuffle rnd ims else ims)
        = set (the_list (ds_images d))"
      using mset_random_shuffle [of rnd ims, THEN mset_eq_setD]
      by (simp add: the_list_def)
    from same [OF this] Some assms(1) show ?thesis
      by (simp add: main_def json_load_def MXIndexedRecordIO_def Let_def w'_def d'_def)
  qed
  with grouped show ?thesis
    by (simp add: w'_def d'_def)
qed

theorem orphan_annotation_ignored_witness:
  "json_file same_id_world (scenario_argv ! 1) = Parsed same_id_dataset
   \<and> ds_annotations same_id_dataset = Some ([ann_a] @ ann_orphan # [])
   \<and> image_id ann_orphan \<notin> img_id ` set (the_list (ds_images same_id_dataset))
   \<and> main (\<lambda>k. 0)
        (same_id_world\<lparr>json_file := (json_file same_id_world)
           (scenario_argv ! 1 := Parsed (same_id_dataset\<lparr>ds_annotations := Some ([ann_a] @ [])\<rparr>))\<rparr>)
        scenario_argv
       = (None, Some two_record_container)"
proof -
  have j: "json_file same_id_world (scenario_argv ! 1) = Parsed same_id_dataset"
    by (simp add: same_id_world_def scenario_argv_def)
  have a: "ds_annotations same_id_dataset = Some ([ann_a] @ ann_orphan # [])"
    by (simp add: same_id_dataset_def)
  have n: "image_id ann_orphan \<notin> img_id ` set (the_list (ds_images same_id_dataset))"
    by (simp add: same_id_dataset_def the_list_def ann_orphan_def image_a_def image_c_def)
  from orphan_annotation_ignored [OF j a n, of "\<lambda>k. 0"] j a n show ?thesis
    by (simp only: same_id_run) simp
qed

lemma contents_new_recordio: "contents (new_recordio out) = []"
  by (simp add: contents_def new_recordio_def)

lemma hids_written:
  "map (\<lambda>e. hid (fst e)) (rec_data (write_all (new_recordio out) 0 xs)) = map int [0..<length xs]"
  by (simp add: rec_data_write_all new_recordio_def pack_def header_of_def comp_def)

lemma random_shuffle_cong:
  assumes "\<And>k. 0 < k \<Longrightarrow> k < length xs \<Longrightarrow> rnd' k = rnd k"
  shows "random_shuffle rnd' xs = random_shuffle rnd xs"
  unfolding random_shuffle_def
  by (rule shuffle_loop_cong) (use assms in auto)

lemma build_record_by_id_maps:
  "build_record w p (st\<lparr>anns := A, imgs := I\<rparr>) img = build_record w p st img"
  by (rule build_record_cong) simp_all

lemma same_id_shuffled_run:
  "main (\<lambda>k. 0) same_id_world shuffle_argv = (None, Some swapped_container)"
proof -
  have "list_all (valid_image same_id_world (scenario_argv ! 2) same_id_dataset)
          (image_order (\<lambda>k. 0) shuffle_argv [image_a, image_c])"
    using same_id_valid by (simp add: same_id_order)
  moreover have "shuffle_argv ! 2 = scenario_argv ! 2" "shuffle_argv ! 3 = scenario_argv ! 3"
    by (simp_all add: shuffle_argv_def scenario_argv_def)
  ultimately show ?thesis
    using main_ok [OF same_id_reaches(2), of "\<lambda>k. 0"]
    by (simp only: same_id_order list.map same_id_built two_records_written)
qed

text \<open>
  C10: the loop of line 46 goes over the images list itself. In a run without failures the
  container has one record for each entry of the list, whether or not ids repeat: the record
  at position \<open>i\<close> starts with the id, width and height of the \<open>i\<close>-th entry visited,
  goes on with the labels and bboxes of the annotation group of that id (the same group for
  every entry with that id) and carries the bytes of that entry's own file. The dictionaries
  \<open>anns\<close> and \<open>imgs\<close> are never read: the loop run with any other two dictionaries in
  their place gives the outcome of the script.
\<close>

theorem by_id_maps_unused:
  assumes "reaches_loop w argv d ims" and "list_all (valid_image w (argv ! 2) d) ims"
  shows "\<exists>r. main rnd w argv = (None, Some r)
           \<and> contents r = map (built w (argv ! 2) d) (image_order rnd argv ims)
           \<and> length (contents r) = length ims
           \<and> (\<forall>i<length ims.
                 take 3 (fst (contents r ! i))
                   = [img_id (image_order rnd argv ims ! i), width (image_order rnd argv ims ! i),
                      height (image_order rnd argv ims ! i)]
                 \<and> drop 3 (fst (contents r ! i))
                   = map (label_of d) (group_of d (img_id (image_order rnd argv ims ! i)))
                     @ concat (map bbox (group_of d (img_id (image_order rnd argv ims ! i))))
                 \<and> image_file w (path_join (argv ! 2) (file_name (image_order rnd argv ims ! i)))
                   = Some (snd (contents r ! i)))
           \<and> main rnd w argv
               = write_records w (argv ! 2) (createIndex d\<lparr>anns := A, imgs := I\<rparr>) 0
                   (image_order rnd argv ims) (new_recordio (argv ! 3))"
proof -
  define xs where "xs = image_order rnd argv ims"
  define r where "r = write_all (new_recordio (argv ! 3)) 0 (map (built w (argv ! 2) d) xs)"
  from assms(2) have v: "list_all (valid_image w (argv ! 2) d) xs"
    by (simp add: list_all_iff xs_def set_image_order)
  with assms(1) have run: "main rnd w argv = (None, Some r)"
    unfolding r_def xs_def by (rule main_ok)
  have len: "length xs = length ims"
    using mset_random_shuffle [of rnd ims, THEN mset_eq_length]
    by (simp add: xs_def image_order_def)
  have c: "contents r = map (built w (argv ! 2) d) xs"
    by (simp add: r_def contents_write_all contents_new_recordio)
  have ent: "take 3 (fst (contents r ! i)) = [img_id (xs ! i), width (xs ! i), height (xs ! i)]
      \<and> drop 3 (fst (contents r ! i))
          = map (label_of d) (group_of d (img_id (xs ! i)))
            @ concat (map bbox (group_of d (img_id (xs ! i))))
      \<and> image_file w (path_join (argv ! 2) (file_name (xs ! i))) = Some (snd (contents r ! i))"
    if "i < length ims" for i
  proof -
    from that len have i: "i < length xs" by simp
    with v have "valid_image w (argv ! 2) d (xs ! i)"
      by (simp add: list_all_length)
    then have "image_file w (path_join (argv ! 2) (file_name (xs ! i))) \<noteq> None"
      by (simp add: valid_image_def)
    with i show ?thesis
      by (auto simp: c built_def record_vector_def)
  qed
  have "main rnd w argv
      = write_records w (argv ! 2) (createIndex d\<lparr>anns := A, imgs := I\<rparr>) 0 xs
          (new_recordio (argv ! 3))"
    unfolding main_loop [OF assms(1)] xs_def [symmetric]
    by (rule write_records_cong [symmetric]) (simp add: build_record_by_id_maps)
  with run c ent len show ?thesis
    unfolding xs_def [symmetric] by auto
qed

theorem by_id_maps_unused_witness:
  "reaches_loop same_id_world scenario_argv same_id_dataset [image_a, image_c]
   \<and> list_all (valid_image same_id_world (scenario_argv ! 2) same_id_dataset) [image_a, image_c]
   \<and> img_id image_a = img_id image_c
   \<and> main (\<lambda>k. 0) same_id_world scenario_argv = (None, Some two_record_container)
   \<and> contents two_record_container
       = [([1, 10, 20, 1, 1, 2, 3, 4], ''JPEG-A''), ([1, 30, 40, 1, 1, 2, 3, 4], ''JPEG-C'')]
   \<and> write_records same_id_world (scenario_argv ! 2)
        (createIndex same_id_dataset\<lparr>anns := Map.empty, imgs := Map.empty\<rparr>) 0
        [image_a, image_c] (new_recordio (scenario_argv ! 3))
       = (None, Some two_record_container)"
proof -
  from by_id_maps_unused [OF same_id_reaches(1) same_id_valid, of "\<lambda>k. 0" Map.empty Map.empty]
  obtain r where r: "main (\<lambda>k. 0) same_id_world scenario_argv = (None, Some r)"
    and c: "contents r = map (built same_id_world (scenario_argv ! 2) same_id_dataset)
                           (image_order (\<lambda>k. 0) scenario_argv [image_a, image_c])"
    and m: "main (\<lambda>k. 0) same_id_world scenario_argv
        = write_records same_id_world (scenario_argv ! 2)
            (createIndex same_id_dataset\<lparr>anns := Map.empty, imgs := Map.empty\<rparr>) 0
            (image_order (\<lambda>k. 0) scenario_argv [image_a, image_c])
            (new_recordio (scenario_argv ! 3))"
    by blast
  from r have eq: "r = two_record_container"
    by (simp only: same_id_run) simp
  from c have "contents two_record_container
       = [([1, 10, 20, 1, 1, 2, 3, 4], ''JPEG-A''), ([1, 30, 40, 1, 1, 2, 3, 4], ''JPEG-C'')]"
    by (simp only: eq same_id_order list.map same_id_built)
  moreover from m have "write_records same_id_world (scenario_argv ! 2)
        (createIndex same_id_dataset\<lparr>anns := Map.empty, imgs := Map.empty\<rparr>) 0
        [image_a, image_c] (new_recordio (scenario_argv ! 3))
       = (None, Some two_record_container)"
    by (simp only: same_id_run same_id_order)
  moreover have "img_id image_a = img_id image_c"
    by (simp add: image_a_def image_c_def)
  ultimately show ?thesis
    using same_id_reaches(1) same_id_valid same_id_run [of "\<lambda>k. 0"] by simp
qed

subsection \<open>Shuffling\<close>

text \<open>
  C5: with exactly three positional arguments the shuffle flag is off, the outcome does not
  depend on the random generator, and the records are those of the images list in its order;
  with anything after the third argument the flag is on and the records are those of the
  shuffled list. In a run without failures, the content of the records (numeric vector and
  image bytes) of the shuffled run is a permutation of that of the plain run; in both runs
  the index keys and the record ids of the headers are the output positions
  \<open>0, 1, ..., n - 1\<close>. The shuffled run is determined by the draws of the generator for
  the loop indices \<open>1, ..., n - 1\<close>.
\<close>

theorem shuffle_permutes:
  assumes "length argv = 4" and "extra \<noteq> []"
    and "reaches_loop w argv d ims" and "list_all (valid_image w (argv ! 2) d) ims"
  shows "\<not> shuffle_flag argv \<and> shuffle_flag (argv @ extra)
       \<and> main rnd' w argv = main rnd w argv
       \<and> (\<exists>r r'. main rnd w argv = (None, Some r)
              \<and> main rnd w (argv @ extra) = (None, Some r')
              \<and> contents r = map (built w (argv ! 2) d) ims
              \<and> contents r' = map (built w (argv ! 2) d) (random_shuffle rnd ims)
              \<and> mset (contents r') = mset (contents r)
              \<and> idx r' = idx r
              \<and> map (\<lambda>e. hid (fst e)) (rec_data r) = map int [0..<length ims]
              \<and> map (\<lambda>e. hid (fst e)) (rec_data r') = map int [0..<length ims])
       \<and> ((\<forall>k. 0 < k \<and> k < length ims \<longrightarrow> rnd' k = rnd k) \<longrightarrow>
            main rnd' w (argv @ extra) = main rnd w (argv @ extra))"
proof -
  let ?p = "argv ! 2"
  let ?r0 = "new_recordio (argv ! 3)"
  have flags: "\<not> shuffle_flag argv" "shuffle_flag (argv @ extra)"
    using assms(1,2) by (simp_all add: shuffle_flag_def)
  have ord: "image_order f argv ims = ims" "image_order f (argv @ extra) ims = random_shuffle f ims"
    for f
    using flags by (simp_all add: image_order_def)
  from assms(1,3) have reach': "reaches_loop w (argv @ extra) d ims"
    by (simp add: reaches_loop_def nth_append)
  from assms(1) have args: "(argv @ extra) ! 2 = ?p" "(argv @ extra) ! 3 = argv ! 3"
    by (simp_all add: nth_append)
  have valid': "list_all (valid_image w ?p d) (random_shuffle f ims)" for f
    using assms(4) mset_random_shuffle [of f ims, THEN mset_eq_setD]
    by (simp add: list_all_iff)
  define r where "r = write_all ?r0 0 (map (built w ?p d) ims)"
  define r' where "r' = write_all ?r0 0 (map (built w ?p d) (random_shuffle rnd ims))"
  have plain: "main f w argv = (None, Some r)" for f
    using main_ok [OF assms(3), of f] assms(4) by (simp add: ord r_def)
  have shuffled: "main f w (argv @ extra)
      = (None, Some (write_all ?r0 0 (map (built w ?p d) (random_shuffle f ims))))" for f
    using main_ok [OF reach', of f] valid' [of f] by (simp add: ord args)
  have c: "contents r = map (built w ?p d) ims"
    "contents r' = map (built w ?p d) (random_shuffle rnd ims)"
    by (simp_all add: r_def r'_def contents_write_all contents_new_recordio)
  have m: "mset (contents r') = mset (contents r)"
    by (simp add: c mset_random_shuffle)
  have "length (random_shuffle rnd ims) = length ims"
    using mset_random_shuffle [of rnd ims, THEN mset_eq_length] .
  then have i: "idx r' = idx r"
    and h: "map (\<lambda>e. hid (fst e)) (rec_data r) = map int [0..<length ims]"
      "map (\<lambda>e. hid (fst e)) (rec_data r') = map int [0..<length ims]"
    by (simp_all add: r_def r'_def idx_write_all hids_written)
  have det: "main rnd' w (argv @ extra) = main rnd w (argv @ extra)"
    if "\<forall>k. 0 < k \<and> k < length ims \<longrightarrow> rnd' k = rnd k"
  proof -
    from that have "random_shuffle rnd' ims = random_shuffle rnd ims"
      by (intro random_shuffle_cong) simp
    then show ?thesis
      by (simp add: shuffled)
  qed
  from plain [of rnd] shuffled [of rnd] c m i h have
    "\<exists>r r'. main rnd w argv = (None, Some r)
              \<and> main rnd w (argv @ extra) = (None, Some r')
              \<and> contents r = map (built w (argv ! 2) d) ims
              \<and> contents r' = map (built w (argv ! 2) d) (random_shuffle rnd ims)
              \<and> mset (contents r') = mset (contents r)
              \<and> idx r' = idx r
              \<and> map (\<lambda>e. hid (fst e)) (rec_data r) = map int [0..<length ims]
              \<and> map (\<lambda>e. hid (fst e)) (rec_data r') = map int [0..<length ims]"
    unfolding r'_def [symmetric] by blast
  with flags plain [of rnd'] plain [of rnd] det show ?thesis
    by simp
qed

theorem shuffle_permutes_witness:
  "length scenario_argv = 4 \<and> [''yes''] \<noteq> []
   \<and> reaches_loop same_id_world scenario_argv same_id_dataset [image_a, image_c]
   \<and> list_all (valid_image same_id_world (scenario_argv ! 2) same_id_dataset) [image_a, image_c]
   \<and> main (\<lambda>k. 0) same_id_world scenario_argv = (None, Some two_record_container)
   \<and> main (\<lambda>k. 0) same_id_world (scenario_argv @ [''yes'']) = (None, Some swapped_container)
   \<and> mset (contents swapped_container) = mset (contents two_record_container)
   \<and> contents swapped_container \<noteq> contents two_record_container"
proof -
  have l: "length scenario_argv = 4" and e: "[''yes''] \<noteq> []"
    by (simp_all add: scenario_argv_def)
  from shuffle_permutes [OF l e same_id_reaches(1) same_id_valid, of "\<lambda>k. 0" "\<lambda>k. 0"]
  obtain r r' where "main (\<lambda>k. 0) same_id_world scenario_argv = (None, Some r)"
    and "main (\<lambda>k. 0) same_id_world (scenario_argv @ [''yes'']) = (None, Some r')"
    and m: "mset (contents r') = mset (contents r)"
    by blast
  then have "r = two_record_container" "r' = swapped_container"
    using same_id_run [of "\<lambda>k. 0"] same_id_shuffled_run
    by (simp_all add: shuffle_argv_def)
  with m have "mset (contents swapped_container) = mset (contents two_record_container)"
    by simp
  moreover have "contents swapped_container \<noteq> contents two_record_container"
    by (simp add: contents_def swapped_container_def two_record_container_def)
  ultimately show ?thesis
    using l e same_id_reaches(1) same_id_valid same_id_run [of "\<lambda>k. 0"] same_id_shuffled_run
    by (simp add: shuffle_argv_def)
qed

subsection \<open>A run without failures\<close>

text \<open>
  C4, as stated: the record written for an image has the header fields flag 0 and label the
  full numeric vector. In the run on the single-image scenario the header handed to
  \<open>pack\<close> has flag 0, but the record the library writes for it has the flag 8, the number
  of entries of the vector; its label field is 0 and the vector is stored after the header.
\<close>

theorem stored_flag_counterexample:
  "main (\<lambda>k. 0) scenario_world scenario_argv = (None, Some scenario_container)
   \<and> length (rec_data scenario_container) = 1
   \<and> s_flag (mx_stored (\<lambda>n. n) (rec_data scenario_container ! 0)) = 8
   \<and> s_flag (mx_stored (\<lambda>n. n) (rec_data scenario_container ! 0)) \<noteq> 0
   \<and> s_label (mx_stored (\<lambda>n. n) (rec_data scenario_container ! 0)) = 0
   \<and> s_array (mx_stored (\<lambda>n. n) (rec_data scenario_container ! 0)) = [1, 10, 20, 1, 1, 2, 3, 4]"
  by (simp add: scenario_run scenario_container_def mx_stored_def)

text \<open>
  C4, amended: when the run gets to the loop (three positional arguments, an annotation file
  that parses, an output directory that can be written, the key \<open>images\<close> present), every
  image file can be read and every annotation of an image of the list has a category of the
  category list, the run ends normally; the container has as many index entries and as many
  records as the images list has entries; the \<open>i\<close>-th index entry has key \<open>i\<close> (and
  points at the \<open>i\<close>-th record). The \<open>i\<close>-th record is packed from the header with flag
  0, the numeric vector of the \<open>i\<close>-th image visited as label, id \<open>i\<close> and id2 0, and
  from the bytes of that image's file. In the record as written the flag is the number of
  entries of that vector, the label field is 0, the id is \<open>i\<close>, id2 is 0, and the header is
  followed by the vector (each entry converted to float32) and then by the bytes of the
  image's file.
\<close>

theorem index_entries:
  assumes "reaches_loop w argv d ims" and "list_all (valid_image w (argv ! 2) d) ims"
  shows "\<exists>r. main rnd w argv = (None, Some r)
           \<and> length (idx r) = length ims \<and> length (rec_data r) = length ims
           \<and> (\<forall>i<length ims.
                 idx r ! i = (i, i)
                 \<and> fst (rec_data r ! i)
                     = \<lparr>flag = 0, label = record_vector d (image_order rnd argv ims ! i),
                        hid = int i, id2 = 0\<rparr>
                 \<and> image_file w (path_join (argv ! 2) (file_name (image_order rnd argv ims ! i)))
                     = Some (snd (rec_data r ! i))
                 \<and> mx_stored f (rec_data r ! i)
                     = \<lparr>s_flag = int (length (record_vector d (image_order rnd argv ims ! i))),
                        s_label = f 0, s_id = int i, s_id2 = 0,
                        s_array = map f (record_vector d (image_order rnd argv ims ! i)),
                        s_payload = snd (rec_data r ! i)\<rparr>)"
proof -
  define xs where "xs = image_order rnd argv ims"
  define r where "r = write_all (new_recordio (argv ! 3)) 0 (map (built w (argv ! 2) d) xs)"
  from assms(2) have v: "list_all (valid_image w (argv ! 2) d) xs"
    by (simp add: list_all_iff xs_def set_image_order)
  with assms(1) have run: "main rnd w argv = (None, Some r)"
    unfolding r_def xs_def by (rule main_ok)
  have len: "length xs = length ims"
    using mset_random_shuffle [of rnd ims, THEN mset_eq_length]
    by (simp add: xs_def image_order_def)
  note e = written_entries [OF r_def]
  have ent: "idx r ! i = (i, i)
      \<and> fst (rec_data r ! i) = \<lparr>flag = 0, label = record_vector d (xs ! i), hid = int i, id2 = 0\<rparr>
      \<and> image_file w (path_join (argv ! 2) (file_name (xs ! i))) = Some (snd (rec_data r ! i))
      \<and> mx_stored f (rec_data r ! i)
          = \<lparr>s_flag = int (length (record_vector d (xs ! i))), s_label = f 0, s_id = int i,
             s_id2 = 0, s_array = map f (record_vector d (xs ! i)),
             s_payload = snd (rec_data r ! i)\<rparr>"
    if "i < length ims" for i
  proof -
    from that len have i: "i < length xs"
      by simp
    with v have "valid_image w (argv ! 2) d (xs ! i)"
      by (simp add: list_all_length)
    then obtain data where f: "image_file w (path_join (argv ! 2) (file_name (xs ! i))) = Some data"
      by (auto simp: valid_image_def)
    from e(4) [OF i] f have rd: "rec_data r ! i
        = (\<lparr>flag = 0, label = record_vector d (xs ! i), hid = int i, id2 = 0\<rparr>, data)"
      by (simp add: pack_def)
    from e(3) [OF i] f show ?thesis
      by (simp add: rd mx_stored_def)
  qed
  from run e(1,2) ent show ?thesis
    unfolding len xs_def [symmetric] by blast
qed

theorem index_entries_witness:
  "reaches_loop same_id_world scenario_argv same_id_dataset [image_a, image_c]
   \<and> list_all (valid_image same_id_world (scenario_argv ! 2) same_id_dataset) [image_a, image_c]
   \<and> main (\<lambda>k. 0) same_id_world scenario_argv = (None, Some two_record_container)
   \<and> length (idx two_record_container) = 2 \<and> length (rec_data two_record_container) = 2
   \<and> idx two_record_container ! 0 = (0, 0) \<and> idx two_record_container ! 1 = (1, 1)
   \<and> fst (rec_data two_record_container ! 1)
       = \<lparr>flag = 0, label = [1, 30, 40, 1, 1, 2, 3, 4], hid = 1, id2 = 0\<rparr>
   \<and> mx_stored (\<lambda>n. n) (rec_data two_record_container ! 0)
       = \<lparr>s_flag = 8, s_label = 0, s_id = 0, s_id2 = 0,
          s_array = [1, 10, 20, 1, 1, 2, 3, 4], s_payload = ''JPEG-A''\<rparr>
   \<and> mx_stored (\<lambda>n. n) (rec_data two_record_container ! 1)
       = \<lparr>s_flag = 8, s_label = 0, s_id = 1, s_id2 = 0,
          s_array = [1, 30, 40, 1, 1, 2, 3, 4], s_payload = ''JPEG-C''\<rparr>"
proof -
  from index_entries [OF same_id_reaches(1) same_id_valid, of "\<lambda>k. 0" "\<lambda>n. n"]
  obtain r where r: "main (\<lambda>k. 0) same_id_world scenario_argv = (None, Some r)"
    and len: "length (idx r) = length [image_a, image_c]"
      "length (rec_data r) = length [image_a, image_c]"
    and ent: "\<forall>i<length [image_a, image_c]. idx r ! i = (i, i)"
    by blast
  from r have eq: "r = two_record_container"
    by (simp only: same_id_run) simp
  from ent have "idx r ! 0 = (0, 0)" "idx r ! 1 = (1, 1)"
    by simp_all
  with len eq have "length (idx two_record_container) = 2"
    "length (rec_data two_record_container) = 2"
    "idx two_record_container ! 0 = (0, 0)" "idx two_record_container ! 1 = (1, 1)"
    by simp_all
  moreover have "fst (rec_data two_record_container ! 1)
       = \<lparr>flag = 0, label = [1, 30, 40, 1, 1, 2, 3, 4], hid = 1, id2 = 0\<rparr>"
    "mx_stored (\<lambda>n. n) (rec_data two_record_container ! 0)
       = \<lparr>s_flag = 8, s_label = 0, s_id = 0, s_id2 = 0,
          s_array = [1, 10, 20, 1, 1, 2, 3, 4], s_payload = ''JPEG-A''\<rparr>"
    "mx_stored (\<lambda>n. n) (rec_data two_record_container ! 1)
       = \<lparr>s_flag = 8, s_label = 0, s_id = 1, s_id2 = 0,
          s_array = [1, 30, 40, 1, 1, 2, 3, 4], s_payload = ''JPEG-C''\<rparr>"
    by (simp_all add: two_record_container_def mx_stored_def)
  ultimately show ?thesis
    using same_id_reaches(1) same_id_valid same_id_run [of "\<lambda>k. 0"] by simp
qed

end
